theory Spec2Isabelle
  imports
    Main
    "HOL-Library.Word"
    "HOL-Library.Char_ord"
    "HOL-Library.List_Lexorder"
    "HOL-Library.Sublist"
    "HOL-Library.Multiset"
begin

section \<open>Package topoproto: utility functions over topodata tablets\<close>

text \<open>
  A shallow embedding of \<^verbatim>\<open>go/vt/topo/topoproto/tablet.go\<close>.

  Conventions of the embedding.
  \<^item> A Go \<^verbatim>\<open>string\<close> is a byte sequence: \<^typ>\<open>string\<close>. Go compares strings
    bytewise and lexicographically; that is the order of \<^typ>\<open>char list\<close> given by
    \<^verbatim>\<open>Char_ord\<close> (bytes by their code) and \<^verbatim>\<open>List_Lexorder\<close>.
  \<^item> A pointer \<^verbatim>\<open>*T\<close> is a \<^typ>\<open>'a option\<close>, \<^term>\<open>None\<close> being \<^verbatim>\<open>nil\<close>.
  \<^item> A run that can panic (nil dereference, index out of range) has a result of
    type \<open>'a run\<close>.
  \<^item> A Go \<^verbatim>\<open>error\<close> is a value of the datatype \<open>error\<close>; a function
    returning \<^verbatim>\<open>(nil, err)\<close> or \<^verbatim>\<open>(v, nil)\<close> has a result of type
    \<open>error + 'a\<close>.
\<close>

datatype 'a run = Panic | Return 'a

subsection \<open>Errors\<close>

text \<open>
  \<^verbatim>\<open>strconv.ParseUint\<close> fails with a \<^verbatim>\<open>*strconv.NumError\<close> holding the function
  name, the input and one of \<^verbatim>\<open>ErrSyntax\<close>, \<^verbatim>\<open>ErrRange\<close>.
  \<^verbatim>\<open>fmt.Errorf\<close> builds an error from its formatted message.
\<close>

datatype strconv_err = ErrSyntax | ErrRange

text \<open>
  Modelled from the spec: \<^verbatim>\<open>vterrors.Wrap\<close> and \<^verbatim>\<open>vterrors.Wrapf\<close> (package
  \<^verbatim>\<open>go/vt/vterrors\<close>), which the spec describes as wrapping the underlying failure
  together with a message: the constructor \<open>Wrap\<close> keeps the cause and the message.
\<close>

datatype error =
    Errorf string
  | NumError string string strconv_err
  | Wrap error string

subsection \<open>Data model\<close>

text \<open>
  Modelled from the spec: the message types \<^verbatim>\<open>topodatapb.TabletAlias\<close> and
  \<^verbatim>\<open>topodatapb.Tablet\<close> are generated code; the records hold the fields of the
  spec's identifier and node descriptor. Equality of records is the structural equality
  of \<^verbatim>\<open>proto.Equal\<close>.
\<close>

type_synonym uint32 = "32 word"
type_synonym int32 = "32 word"

record TabletAlias =
  Cell :: string
  Uid :: uint32

record Tablet =
  Alias :: "TabletAlias option"
  Keyspace :: string
  Shard :: string
  DbNameOverride :: string
  MysqlHostname :: string
  MysqlPort :: int32

definition VtDbPrefix :: string where
  "VtDbPrefix = ''vt_''"

subsection \<open>Alias equality and membership\<close>

text \<open>
  \<^verbatim>\<open>proto.Equal\<close> on two alias pointers: two nil pointers are equal, a nil and a
  non-nil pointer are not, two messages are equal when their fields are.
\<close>

definition TabletAliasIsZero :: "TabletAlias option \<Rightarrow> bool" where
  "TabletAliasIsZero ta =
     (case ta of None \<Rightarrow> True | Some a \<Rightarrow> Cell a = [] \<and> Uid a = 0)"

definition TabletAliasEqual :: "TabletAlias option \<Rightarrow> TabletAlias option \<Rightarrow> bool" where
  "TabletAliasEqual left right =
     (case (left, right) of
        (None, None) \<Rightarrow> True
      | (None, Some r) \<Rightarrow> False
      | (Some l, None) \<Rightarrow> False
      | (Some l, Some r) \<Rightarrow> Cell l = Cell r \<and> Uid l = Uid r)"

text \<open>
  The loop of \<^verbatim>\<open>IsTabletInList\<close> reads \<^verbatim>\<open>tablet.Alias\<close> and \<^verbatim>\<open>tab.Alias\<close>
  in its body: a nil \<^verbatim>\<open>tablet\<close> panics at the first element (not on an empty
  list), a nil element panics when the scan reaches it.
\<close>

fun IsTabletInList :: "Tablet option \<Rightarrow> Tablet option list \<Rightarrow> bool run" where
  "IsTabletInList tablet [] = Return False"
| "IsTabletInList tablet (tab # allTablets) =
     (case tablet of
        None \<Rightarrow> Panic
      | Some t \<Rightarrow>
          (case tab of
             None \<Rightarrow> Panic
           | Some t' \<Rightarrow>
               if TabletAliasEqual (Alias t) (Alias t') then Return True
               else IsTabletInList tablet allTablets))"

subsection \<open>Formatting an alias\<close>

text \<open>
  \<^verbatim>\<open>%010d\<close> of an unsigned integer: its decimal digits, most significant first,
  padded on the left with \<^verbatim>\<open>0\<close> to a width of 10. \<^verbatim>\<open>%v\<close> of a string is the
  string.
\<close>

definition digit_byte :: "nat \<Rightarrow> char" where
  "digit_byte d = char_of (48 + d)"

fun decimal :: "nat \<Rightarrow> string" where
  "decimal n = (if n < 10 then [digit_byte n] else decimal (n div 10) @ [digit_byte (n mod 10)])"

declare decimal.simps [simp del]

definition fmt_010d :: "nat \<Rightarrow> string" where
  "fmt_010d n = (let ds = decimal n in replicate (10 - length ds) (CHR ''0'') @ ds)"

definition TabletAliasString :: "TabletAlias option \<Rightarrow> string" where
  "TabletAliasString ta =
     (case ta of
        None \<Rightarrow> ''<nil>''
      | Some a \<Rightarrow> Cell a @ ''-'' @ fmt_010d (unat (Uid a)))"

text \<open>\<^verbatim>\<open>TabletAliasUIDStr\<close> reads \<^verbatim>\<open>ta.Uid\<close> with no nil check.\<close>

definition TabletAliasUIDStr :: "TabletAlias option \<Rightarrow> string run" where
  "TabletAliasUIDStr ta =
     (case ta of None \<Rightarrow> Panic | Some a \<Rightarrow> Return (fmt_010d (unat (Uid a))))"

subsection \<open>Parsing an alias\<close>

definition tabletAliasFormat :: string where
  "tabletAliasFormat = ''^(?P<cell>[-_.a-zA-Z0-9]+)-(?P<uid>[0-9]+)$''"

text \<open>The two character classes of the pattern, on bytes.\<close>

definition uid_char :: "char \<Rightarrow> bool" where
  "uid_char c = (CHR ''0'' \<le> c \<and> c \<le> CHR ''9'')"

definition cell_char :: "char \<Rightarrow> bool" where
  "cell_char c =
     (c = CHR ''-'' \<or> c = CHR ''_'' \<or> c = CHR ''.''
      \<or> (CHR ''a'' \<le> c \<and> c \<le> CHR ''z'')
      \<or> (CHR ''A'' \<le> c \<and> c \<le> CHR ''Z'')
      \<or> (CHR ''0'' \<le> c \<and> c \<le> CHR ''9''))"

text \<open>
  The language of the pattern, with its two groups: the whole input is a non-empty run
  of cell characters, a dash, and a non-empty run of digits (\<^verbatim>\<open>^\<close> and \<^verbatim>\<open>$\<close> anchor
  the match at the two ends of the text; no flag is set).
\<close>

definition alias_match :: "string \<Rightarrow> string \<Rightarrow> string \<Rightarrow> bool" where
  "alias_match s cell uid =
     (s = cell @ ''-'' @ uid \<and> cell \<noteq> [] \<and> list_all cell_char cell
      \<and> uid \<noteq> [] \<and> list_all uid_char uid)"

text \<open>
  \<^verbatim>\<open>tabletAliasRegexp.FindStringSubmatch\<close>: nil (the empty list) when the input does
  not match, and otherwise the whole match followed by the two groups. A digit run holds
  no dash, so the dash between the groups is the last dash of the input and the groups
  are what lies before and after it; \<open>FindStringSubmatch_iff\<close> below proves that this
  computes exactly the matches of \<open>alias_match\<close>.
\<close>

definition split_last_dash :: "string \<Rightarrow> (string \<times> string) option" where
  "split_last_dash s =
     (let r = rev s;
          after = takeWhile (\<lambda>c. c \<noteq> CHR ''-'') r;
          rest = dropWhile (\<lambda>c. c \<noteq> CHR ''-'') r
      in case rest of
           [] \<Rightarrow> None
         | dash # before \<Rightarrow> Some (rev before, rev after))"

definition FindStringSubmatch :: "string \<Rightarrow> string list" where
  "FindStringSubmatch s =
     (case split_last_dash s of
        None \<Rightarrow> []
      | Some (cell, uid) \<Rightarrow>
          if cell \<noteq> [] \<and> list_all cell_char cell \<and> uid \<noteq> [] \<and> list_all uid_char uid
          then [s, cell, uid] else [])"

text \<open>
  \<^verbatim>\<open>strconv.ParseUint(value, 10, 32)\<close>. The loop of the library, for base 10 and
  32 bits: \<^verbatim>\<open>cutoff\<close> is \<^verbatim>\<open>maxUint64/10 + 1\<close>, \<^verbatim>\<open>maxVal\<close> is \<^verbatim>\<open>1<<32 - 1\<close>; the
  accumulator is a \<^verbatim>\<open>uint64\<close>, so the product and the sum wrap at \<open>2 ^ 64\<close>.
\<close>

definition maxUint64 :: nat where
  "maxUint64 = 2 ^ 64 - 1"

definition cutoff :: nat where
  "cutoff = maxUint64 div 10 + 1"

definition maxVal :: nat where
  "maxVal = 2 ^ 32 - 1"

fun ParseUint_loop :: "string \<Rightarrow> string \<Rightarrow> nat \<Rightarrow> error + nat" where
  "ParseUint_loop s0 [] n = Inr n"
| "ParseUint_loop s0 (c # cs) n =
     (if \<not> uid_char c then Inl (NumError ''ParseUint'' s0 ErrSyntax)
      else
        let d = of_char c - 48 in
        if n \<ge> cutoff then Inl (NumError ''ParseUint'' s0 ErrRange)
        else
          let n' = (n * 10) mod 2 ^ 64;
              n1 = (n' + d) mod 2 ^ 64
          in if n1 < n' \<or> n1 > maxVal then Inl (NumError ''ParseUint'' s0 ErrRange)
             else ParseUint_loop s0 cs n1)"

definition ParseUint :: "string \<Rightarrow> error + nat" where
  "ParseUint s =
     (if s = [] then Inl (NumError ''ParseUint'' s ErrSyntax) else ParseUint_loop s s 0)"

definition ParseUID :: "string \<Rightarrow> error + uint32" where
  "ParseUID v =
     (case ParseUint v of
        Inl err \<Rightarrow> Inl (Wrap err ''bad tablet uid'')
      | Inr uid \<Rightarrow> Inr (word_of_nat uid))"

definition ParseTabletAlias :: "string \<Rightarrow> error + TabletAlias" where
  "ParseTabletAlias aliasStr =
     (let nameParts = FindStringSubmatch aliasStr in
      if length nameParts \<noteq> 3
      then Inl (Errorf (''invalid tablet alias: '' @ [CHR 0x27] @ aliasStr @ [CHR 0x27]
                        @ '', expecting format: '' @ [CHR 0x27] @ tabletAliasFormat @ [CHR 0x27]))
      else
        case ParseUID (nameParts ! 2) of
          Inl err \<Rightarrow>
            Inl (Wrap err (''invalid tablet uid in alias '' @ [CHR 0x27] @ aliasStr @ [CHR 0x27]))
        | Inr uid \<Rightarrow> Inr \<lparr>Cell = nameParts ! 1, Uid = uid\<rparr>)"

text \<open>
  The number that a run of decimal digits denotes, most significant digit first. It
  states what parsing and formatting have to agree on.
\<close>

fun dec_val :: "string \<Rightarrow> nat" where
  "dec_val [] = 0"
| "dec_val (c # cs) = (of_char c - 48) * 10 ^ length cs + dec_val cs"

subsection \<open>Lists of aliases\<close>

text \<open>
  \<^verbatim>\<open>TabletAliasList\<close> is a slice of alias pointers. \<^verbatim>\<open>tal[i]\<close> panics when
  \<^verbatim>\<open>i\<close> is out of range, and reading a field through a nil element panics.
\<close>

type_synonym TabletAliasList = "TabletAlias option list"

definition index :: "'a list \<Rightarrow> int \<Rightarrow> 'a run" where
  "index xs i = (if 0 \<le> i \<and> i < int (length xs) then Return (xs ! nat i) else Panic)"

definition Len :: "TabletAliasList \<Rightarrow> int" where
  "Len tal = int (length tal)"

definition Less :: "TabletAliasList \<Rightarrow> int \<Rightarrow> int \<Rightarrow> bool run" where
  "Less tal i j =
     (case (index tal i, index tal j) of
        (Return (Some a), Return (Some b)) \<Rightarrow>
          Return (if Cell a < Cell b then True
                  else if Cell a > Cell b then False
                  else Uid a < Uid b)
      | _ \<Rightarrow> Panic)"

definition Swap :: "TabletAliasList \<Rightarrow> int \<Rightarrow> int \<Rightarrow> TabletAliasList run" where
  "Swap tal i j =
     (case (index tal i, index tal j) of
        (Return x, Return y) \<Rightarrow> Return (tal[nat i := y, nat j := x])
      | _ \<Rightarrow> Panic)"

text \<open>
  The loop of \<^verbatim>\<open>ToStringSlice\<close> fills a slice of \<^verbatim>\<open>len(tal)\<close> empty strings,
  index by index.
\<close>

definition ToStringSlice :: "TabletAliasList \<Rightarrow> string list" where
  "ToStringSlice tal =
     fold (\<lambda>i result. result[i := TabletAliasString (tal ! i)])
       [0 ..< length tal] (replicate (length tal) [])"

text \<open>
  \<^verbatim>\<open>sort.Sort\<close> of the standard library drives \<^verbatim>\<open>Len\<close>, \<^verbatim>\<open>Less\<close> and
  \<^verbatim>\<open>Swap\<close>; on a slice of at most 12 elements it runs its insertion sort:
  \<^verbatim>\<open>for i := a + 1; i < b; i++ { for j := i; j > a && data.Less(j, j-1); j-- { data.Swap(j, j-1) } }\<close>.
\<close>

fun insertionSort_inner :: "TabletAliasList \<Rightarrow> nat \<Rightarrow> nat \<Rightarrow> TabletAliasList run" where
  "insertionSort_inner data a 0 = Return data"
| "insertionSort_inner data a (Suc k) =
     (if Suc k > a then
        (case Less data (int (Suc k)) (int (Suc k) - 1) of
           Panic \<Rightarrow> Panic
         | Return False \<Rightarrow> Return data
         | Return True \<Rightarrow>
             (case Swap data (int (Suc k)) (int (Suc k) - 1) of
                Panic \<Rightarrow> Panic
              | Return data' \<Rightarrow> insertionSort_inner data' a k))
      else Return data)"

fun insertionSort_outer :: "TabletAliasList \<Rightarrow> nat \<Rightarrow> nat list \<Rightarrow> TabletAliasList run" where
  "insertionSort_outer data a [] = Return data"
| "insertionSort_outer data a (i # rest) =
     (case insertionSort_inner data a i of
        Panic \<Rightarrow> Panic
      | Return data' \<Rightarrow> insertionSort_outer data' a rest)"

definition insertionSort :: "TabletAliasList \<Rightarrow> nat \<Rightarrow> nat \<Rightarrow> TabletAliasList run" where
  "insertionSort data a b = insertionSort_outer data a [a + 1 ..< b]"

subsection \<open>Tablet types\<close>

text \<open>
  \<^verbatim>\<open>topodatapb.TabletType\<close> is an \<^verbatim>\<open>int32\<close>. Its named constants, the tables
  \<^verbatim>\<open>TabletType_name\<close> and \<^verbatim>\<open>TabletType_value\<close> and its method \<^verbatim>\<open>String\<close> are
  generated code that is not part of this file: the functions below take them as a
  parameter, a record of type \<open>topodatapb\<close>, and the theorems hold for every such record.
\<close>

type_synonym TabletType = int32

record topodatapb =
  TabletType_UNKNOWN :: TabletType
  TabletType_PRIMARY :: TabletType
  TabletType_REPLICA :: TabletType
  TabletType_RDONLY :: TabletType
  TabletType_BATCH :: TabletType
  TabletType_SPARE :: TabletType
  TabletType_EXPERIMENTAL :: TabletType
  TabletType_BACKUP :: TabletType
  TabletType_RESTORE :: TabletType
  TabletType_DRAINED :: TabletType
  TabletType_name :: "TabletType \<rightharpoonup> string"
  TabletType_value :: "string \<rightharpoonup> TabletType"
  TabletType_String :: "TabletType \<Rightarrow> string"

text \<open>
  Modelled from the spec: the generated enumeration of package \<^verbatim>\<open>topodata\<close>, which
  lies outside \<^verbatim>\<open>tablet.go\<close>. The role names are those the spec lists. \<^verbatim>\<open>BATCH\<close> is an
  alias of \<^verbatim>\<open>RDONLY\<close> (the comment of \<^verbatim>\<open>MakeUniqueStringTypeList\<close>: rdonly shows up
  twice for \<^verbatim>\<open>AllTabletTypes\<close>), so the two constants are one value, whose name is
  \<^verbatim>\<open>RDONLY\<close>. \<^verbatim>\<open>String\<close> is the name of a value, and its decimal number for a value
  without one. This record is the concrete input of the examples.
\<close>

definition Itoa :: "int \<Rightarrow> string" where
  "Itoa i = (if i < 0 then ''-'' @ decimal (nat (- i)) else decimal (nat i))"

definition topodata_names :: "(TabletType \<times> string) list" where
  "topodata_names =
     [(0, ''UNKNOWN''), (1, ''PRIMARY''), (2, ''REPLICA''), (3, ''RDONLY''), (4, ''SPARE''),
      (5, ''EXPERIMENTAL''), (6, ''BACKUP''), (7, ''RESTORE''), (8, ''DRAINED'')]"

definition topodata_values :: "(string \<times> TabletType) list" where
  "topodata_values =
     [(''UNKNOWN'', 0), (''PRIMARY'', 1), (''REPLICA'', 2), (''RDONLY'', 3), (''BATCH'', 3),
      (''SPARE'', 4), (''EXPERIMENTAL'', 5), (''BACKUP'', 6), (''RESTORE'', 7),
      (''DRAINED'', 8)]"

definition topodata :: topodatapb where
  "topodata =
     \<lparr>TabletType_UNKNOWN = 0, TabletType_PRIMARY = 1, TabletType_REPLICA = 2,
      TabletType_RDONLY = 3, TabletType_BATCH = 3, TabletType_SPARE = 4,
      TabletType_EXPERIMENTAL = 5, TabletType_BACKUP = 6, TabletType_RESTORE = 7,
      TabletType_DRAINED = 8,
      TabletType_name = map_of topodata_names,
      TabletType_value = map_of topodata_values,
      TabletType_String =
        (\<lambda>t. case map_of topodata_names t of Some n \<Rightarrow> n | None \<Rightarrow> Itoa (sint t))\<rparr>"

definition AllTabletTypes :: "topodatapb \<Rightarrow> TabletType list" where
  "AllTabletTypes pb =
     [TabletType_PRIMARY pb, TabletType_REPLICA pb, TabletType_RDONLY pb,
      TabletType_BATCH pb, TabletType_SPARE pb, TabletType_EXPERIMENTAL pb,
      TabletType_BACKUP pb, TabletType_RESTORE pb, TabletType_DRAINED pb]"

text \<open>
  \<^verbatim>\<open>strings.ToUpper\<close> and \<^verbatim>\<open>strings.ToLower\<close>: a string of ASCII bytes is mapped
  byte by byte; any other string goes through \<^verbatim>\<open>strings.Map\<close> with the Unicode case
  tables, which the functions take as the parameter \<open>uni\<close>.
\<close>

definition isASCII :: "string \<Rightarrow> bool" where
  "isASCII s = list_all (\<lambda>c. (of_char c :: nat) < 128) s"

definition upper_byte :: "char \<Rightarrow> char" where
  "upper_byte c = (if CHR ''a'' \<le> c \<and> c \<le> CHR ''z'' then char_of (of_char c - (32::nat)) else c)"

definition lower_byte :: "char \<Rightarrow> char" where
  "lower_byte c = (if CHR ''A'' \<le> c \<and> c \<le> CHR ''Z'' then char_of (of_char c + (32::nat)) else c)"

definition ToUpper :: "(string \<Rightarrow> string) \<Rightarrow> string \<Rightarrow> string" where
  "ToUpper uni s = (if isASCII s then map upper_byte s else uni s)"

definition ToLower :: "(string \<Rightarrow> string) \<Rightarrow> string \<Rightarrow> string" where
  "ToLower uni s = (if isASCII s then map lower_byte s else uni s)"

text \<open>
  The table \<^verbatim>\<open>tabletTypeLowerName\<close> that \<^verbatim>\<open>init\<close> builds from
  \<^verbatim>\<open>TabletType_name\<close>, and its lookup.
\<close>

definition tabletTypeLowerName ::
    "topodatapb \<Rightarrow> (string \<Rightarrow> string) \<Rightarrow> TabletType \<rightharpoonup> string" where
  "tabletTypeLowerName pb uni = (\<lambda>k. map_option (ToLower uni) (TabletType_name pb k))"

definition TabletTypeLString :: "topodatapb \<Rightarrow> (string \<Rightarrow> string) \<Rightarrow> TabletType \<Rightarrow> string" where
  "TabletTypeLString pb uni tabletType =
     (case tabletTypeLowerName pb uni tabletType of
        None \<Rightarrow> ''unknown''
      | Some v \<Rightarrow> v)"

text \<open>
  \<^verbatim>\<open>ParseTabletType\<close> returns a value and an error: on an unknown name the value is
  \<^verbatim>\<open>TabletType_UNKNOWN\<close>. \<^verbatim>\<open>%v\<close> of the string \<^verbatim>\<open>param\<close> is the string.
\<close>

definition ParseTabletType ::
    "topodatapb \<Rightarrow> (string \<Rightarrow> string) \<Rightarrow> string \<Rightarrow> TabletType \<times> error option" where
  "ParseTabletType pb uni param =
     (case TabletType_value pb (ToUpper uni param) of
        None \<Rightarrow> (TabletType_UNKNOWN pb, Some (Errorf (''unknown TabletType '' @ param)))
      | Some v \<Rightarrow> (v, None))"

text \<open>
  \<^verbatim>\<open>strings.Split(s, ",")\<close>: the pieces of \<^verbatim>\<open>s\<close> between the separators, one more
  than there are separators.
\<close>

fun Split_from :: "char \<Rightarrow> string \<Rightarrow> string \<Rightarrow> string list" where
  "Split_from sep piece [] = [piece]"
| "Split_from sep piece (c # cs) =
     (if c = sep then piece # Split_from sep [] cs else Split_from sep (piece @ [c]) cs)"

definition Split :: "string \<Rightarrow> char \<Rightarrow> string list" where
  "Split s sep = Split_from sep [] s"

definition ParseTabletSet :: "string \<Rightarrow> string set" where
  "ParseTabletSet tabletListStr =
     (if tabletListStr = [] then {} else set (Split tabletListStr (CHR '','')))"

fun ParseTabletTypes_loop ::
    "topodatapb \<Rightarrow> (string \<Rightarrow> string) \<Rightarrow> string list \<Rightarrow> TabletType list
     \<Rightarrow> error + TabletType list" where
  "ParseTabletTypes_loop pb uni [] tabletTypes = Inr tabletTypes"
| "ParseTabletTypes_loop pb uni (typeStr # rest) tabletTypes =
     (case ParseTabletType pb uni typeStr of
        (t, Some err) \<Rightarrow> Inl err
      | (t, None) \<Rightarrow> ParseTabletTypes_loop pb uni rest (tabletTypes @ [t]))"

definition ParseTabletTypes ::
    "topodatapb \<Rightarrow> (string \<Rightarrow> string) \<Rightarrow> string \<Rightarrow> error + TabletType list" where
  "ParseTabletTypes pb uni param =
     ParseTabletTypes_loop pb uni (Split param (CHR '','')) []"

fun IsTypeInList :: "TabletType \<Rightarrow> TabletType list \<Rightarrow> bool" where
  "IsTypeInList tabletType [] = False"
| "IsTypeInList tabletType (t # types) =
     (if tabletType = t then True else IsTypeInList tabletType types)"

text \<open>
  \<^verbatim>\<open>sort.Strings\<close> sorts a slice of strings into increasing order. The sorted
  arrangement of a list of strings is unique, so every sorting algorithm computes it;
  here it is \<^const>\<open>sort\<close>, on the bytewise lexicographic order of strings.
\<close>

definition sort_Strings :: "string list \<Rightarrow> string list" where
  "sort_Strings strs = sort strs"

definition MakeStringTypeList ::
    "topodatapb \<Rightarrow> (string \<Rightarrow> string) \<Rightarrow> TabletType list \<Rightarrow> string list" where
  "MakeStringTypeList pb uni types =
     sort_Strings
       (fold (\<lambda>i strs. strs[i := ToLower uni (TabletType_String pb (types ! i))])
          [0 ..< length types] (replicate (length types) []))"

text \<open>The loop of \<^verbatim>\<open>MakeUniqueStringTypeList\<close>, on the slice and the set of seen names.\<close>

fun MakeUniqueStringTypeList_loop ::
    "topodatapb \<Rightarrow> (string \<Rightarrow> string) \<Rightarrow> TabletType list \<Rightarrow> string list \<Rightarrow> string set
     \<Rightarrow> string list" where
  "MakeUniqueStringTypeList_loop pb uni [] strs seen = strs"
| "MakeUniqueStringTypeList_loop pb uni (t # types) strs seen =
     (if TabletType_String pb t \<in> seen
      then MakeUniqueStringTypeList_loop pb uni types strs seen
      else MakeUniqueStringTypeList_loop pb uni types
             (strs @ [ToLower uni (TabletType_String pb t)])
             (insert (TabletType_String pb t) seen))"

definition MakeUniqueStringTypeList ::
    "topodatapb \<Rightarrow> (string \<Rightarrow> string) \<Rightarrow> TabletType list \<Rightarrow> string list" where
  "MakeUniqueStringTypeList pb uni types =
     sort_Strings (MakeUniqueStringTypeList_loop pb uni types [] {})"

subsection \<open>Tablet attributes\<close>

text \<open>Both functions read the fields of \<^verbatim>\<open>tablet\<close>; the first one has no nil check.\<close>

definition TabletDbName :: "Tablet option \<Rightarrow> string run" where
  "TabletDbName tablet =
     (case tablet of
        None \<Rightarrow> Panic
      | Some t \<Rightarrow>
          if DbNameOverride t \<noteq> [] then Return (DbNameOverride t)
          else if Keyspace t = [] then Return []
          else Return (VtDbPrefix @ Keyspace t))"

definition TabletIsAssigned :: "Tablet option \<Rightarrow> bool" where
  "TabletIsAssigned tablet =
     (case tablet of None \<Rightarrow> False | Some t \<Rightarrow> Keyspace t \<noteq> [] \<and> Shard t \<noteq> [])"

definition IsServingType :: "topodatapb \<Rightarrow> TabletType \<Rightarrow> bool" where
  "IsServingType pb tabletType =
     (if tabletType = TabletType_PRIMARY pb \<or> tabletType = TabletType_REPLICA pb
         \<or> tabletType = TabletType_BATCH pb \<or> tabletType = TabletType_EXPERIMENTAL pb
      then True else False)"

subsection \<open>The sorting example\<close>

text \<open>The list of three aliases of the specification's sorting example, and its sorted form.\<close>

definition sort_example_input :: TabletAliasList where
  "sort_example_input =
     [Some \<lparr>Cell = ''b'', Uid = 1\<rparr>, Some \<lparr>Cell = ''a'', Uid = 5\<rparr>,
      Some \<lparr>Cell = ''a'', Uid = 2\<rparr>]"

definition sort_example_output :: TabletAliasList where
  "sort_example_output =
     [Some \<lparr>Cell = ''a'', Uid = 2\<rparr>, Some \<lparr>Cell = ''a'', Uid = 5\<rparr>,
      Some \<lparr>Cell = ''b'', Uid = 1\<rparr>]"

section \<open>Auxiliary lemmas\<close>

subsection \<open>Digits, decimal formatting and \<open>ParseUint\<close>\<close>

lemma uid_char_iff: "uid_char c \<longleftrightarrow> 48 \<le> (of_char c :: nat) \<and> (of_char c :: nat) \<le> 57"
  by (simp add: uid_char_def less_eq_char_def)

lemma uid_char_not_dash: "uid_char c \<Longrightarrow> c \<noteq> CHR ''-''"
  by (auto simp: uid_char_iff)

lemma of_char_digit_byte: "d < 10 \<Longrightarrow> (of_char (digit_byte d) :: nat) = 48 + d"
  by (simp add: digit_byte_def)

lemma uid_char_digit_byte: "d < 10 \<Longrightarrow> uid_char (digit_byte d)"
  by (simp add: uid_char_iff of_char_digit_byte)

lemma uid_char_zero: "uid_char (CHR ''0'')"
  by (simp add: uid_char_def)

lemma decimal_digits: "list_all uid_char (decimal n)"
proof (induction n rule: decimal.induct)
  case (1 n)
  show ?case
  proof (cases "n < 10")
    case True
    then show ?thesis by (subst decimal.simps) (simp add: uid_char_digit_byte)
  next
    case False
    with 1 show ?thesis by (subst decimal.simps) (simp add: uid_char_digit_byte)
  qed
qed

lemma decimal_nonempty: "decimal n \<noteq> []"
  by (subst decimal.simps) simp

lemma dec_val_snoc: "dec_val (cs @ [c]) = dec_val cs * 10 + (of_char c - 48)"
  by (induction cs) (simp_all add: algebra_simps)

lemma dec_val_decimal: "dec_val (decimal n) = n"
proof (induction n rule: decimal.induct)
  case (1 n)
  show ?case
  proof (cases "n < 10")
    case True
    then show ?thesis by (subst decimal.simps) (simp add: of_char_digit_byte)
  next
    case False
    with 1 show ?thesis
      by (subst decimal.simps) (simp add: dec_val_snoc of_char_digit_byte)
  qed
qed

lemma dec_val_zeros: "dec_val (replicate k (CHR ''0'') @ ds) = dec_val ds"
  by (induction k) simp_all

lemma length_decimal: "n < 10 ^ k \<Longrightarrow> 0 < k \<Longrightarrow> length (decimal n) \<le> k"
proof (induction n arbitrary: k rule: decimal.induct)
  case (1 n)
  show ?case
  proof (cases "n < 10")
    case True
    with 1(3) show ?thesis by (subst decimal.simps) simp
  next
    case False
    obtain j where k: "k = Suc j" using 1(3) by (cases k) auto
    have "j > 0" using False 1(2) k by (cases j) auto
    moreover have "n div 10 < 10 ^ j" using 1(2) k by (simp add: less_mult_imp_div_less)
    ultimately have "length (decimal (n div 10)) \<le> j" using 1(1) False by blast
    with False k show ?thesis by (subst decimal.simps) simp
  qed
qed

lemma zeros_digits: "list_all uid_char (replicate k (CHR ''0''))"
  by (induction k) (simp_all add: uid_char_zero)

lemma fmt_010d_digits: "list_all uid_char (fmt_010d n)"
  by (simp add: fmt_010d_def Let_def decimal_digits zeros_digits)

lemma fmt_010d_nonempty: "fmt_010d n \<noteq> []"
  by (simp add: fmt_010d_def Let_def decimal_nonempty)

lemma dec_val_fmt_010d: "dec_val (fmt_010d n) = n"
  by (simp add: fmt_010d_def Let_def dec_val_zeros dec_val_decimal)

lemma length_fmt_010d: "n < 10 ^ 10 \<Longrightarrow> length (fmt_010d n) = 10"
  using length_decimal [of n 10] by (simp add: fmt_010d_def Let_def)

lemma ParseUint_loop_ok:
  "list_all uid_char ds \<Longrightarrow> n * 10 ^ length ds + dec_val ds \<le> maxVal \<Longrightarrow>
   ParseUint_loop s0 ds n = Inr (n * 10 ^ length ds + dec_val ds)"
proof (induction ds arbitrary: n)
  case Nil
  then show ?case by simp
next
  case (Cons c cs)
  define d :: nat where "d = of_char c - 48"
  have dv: "dec_val (c # cs) = d * 10 ^ length cs + dec_val cs" by (simp add: d_def)
  have le: "n * 10 + d \<le> n * 10 ^ length (c # cs) + dec_val (c # cs)"
  proof -
    have "n * 10 * 1 \<le> n * 10 * 10 ^ length cs" by (rule mult_le_mono2) simp
    then have a: "n * 10 \<le> n * 10 ^ length (c # cs)" by (simp add: mult.assoc)
    have "d * 1 \<le> d * 10 ^ length cs" by (rule mult_le_mono2) simp
    then have b: "d \<le> d * 10 ^ length cs" by simp
    show ?thesis unfolding dv using a b by linarith
  qed
  then have b: "n * 10 + d \<le> maxVal" using Cons.prems(2) by linarith
  then have n: "n < cutoff" by (simp add: maxVal_def cutoff_def maxUint64_def)
  have m1: "(n * 10) mod 2 ^ 64 = n * 10" using b by (simp add: maxVal_def)
  have m2: "(n * 10 + d) mod 2 ^ 64 = n * 10 + d" using b by (simp add: maxVal_def)
  have eq: "(n * 10 + d) * 10 ^ length cs + dec_val cs = n * 10 ^ length (c # cs) + dec_val (c # cs)"
    unfolding dv by (simp add: algebra_simps)
  have "ParseUint_loop s0 cs (n * 10 + d) = Inr ((n * 10 + d) * 10 ^ length cs + dec_val cs)"
    using Cons.IH [of "n * 10 + d"] Cons.prems eq by simp
  then have "ParseUint_loop s0 cs (n * 10 + d) = Inr (n * 10 ^ length (c # cs) + dec_val (c # cs))"
    using eq by simp
  moreover have "ParseUint_loop s0 (c # cs) n = ParseUint_loop s0 cs (n * 10 + d)"
    using Cons.prems(1) n b m1 m2 by (simp add: Let_def d_def [symmetric])
  ultimately show ?case by simp
qed

lemma ParseUint_loop_range:
  "list_all uid_char ds \<Longrightarrow> n \<le> maxVal \<Longrightarrow> maxVal < n * 10 ^ length ds + dec_val ds \<Longrightarrow>
   ParseUint_loop s0 ds n = Inl (NumError ''ParseUint'' s0 ErrRange)"
proof (induction ds arbitrary: n)
  case Nil
  then show ?case by simp
next
  case (Cons c cs)
  define d :: nat where "d = of_char c - 48"
  have dv: "dec_val (c # cs) = d * 10 ^ length cs + dec_val cs" by (simp add: d_def)
  have uc: "uid_char c" and ucs: "list_all uid_char cs" using Cons.prems(1) by simp_all
  have d: "d \<le> 9" using uc unfolding d_def uid_char_iff by arith
  have n: "n < cutoff" using Cons.prems(2) by (simp add: maxVal_def cutoff_def maxUint64_def)
  have m1: "(n * 10) mod 2 ^ 64 = n * 10" using Cons.prems(2) by (simp add: maxVal_def)
  have m2: "(n * 10 + d) mod 2 ^ 64 = n * 10 + d" using Cons.prems(2) d by (simp add: maxVal_def)
  have eq: "(n * 10 + d) * 10 ^ length cs + dec_val cs = n * 10 ^ length (c # cs) + dec_val (c # cs)"
    unfolding dv by (simp add: algebra_simps)
  show ?case
  proof (cases "n * 10 + d > maxVal")
    case True
    then show ?thesis using uc n m1 m2 by (simp add: Let_def d_def [symmetric])
  next
    case False
    then have "ParseUint_loop s0 cs (n * 10 + d) = Inl (NumError ''ParseUint'' s0 ErrRange)"
      using Cons.IH [of "n * 10 + d"] ucs Cons.prems(3) eq by simp
    then show ?thesis using uc n m1 m2 False by (simp add: Let_def d_def [symmetric])
  qed
qed

lemma ParseUint_digits:
  "ds \<noteq> [] \<Longrightarrow> list_all uid_char ds \<Longrightarrow>
   ParseUint ds = (if dec_val ds \<le> maxVal then Inr (dec_val ds)
                   else Inl (NumError ''ParseUint'' ds ErrRange))"
  using ParseUint_loop_ok [of ds 0 ds] ParseUint_loop_range [of ds 0 ds]
  by (simp add: ParseUint_def)

subsection \<open>The pattern of an alias\<close>

lemma split_last_dash_append:
  assumes "CHR ''-'' \<notin> set u"
  shows "split_last_dash (c @ ''-'' @ u) = Some (c, u)"
proof -
  have r: "rev (c @ ''-'' @ u) = rev u @ CHR ''-'' # rev c" by simp
  have p: "\<And>x. x \<in> set (rev u) \<Longrightarrow> x \<noteq> CHR ''-''" using assms by auto
  have t: "takeWhile (\<lambda>c. c \<noteq> CHR ''-'') (rev u @ CHR ''-'' # rev c) = rev u"
    by (subst takeWhile_append2) (use p in auto)
  have d: "dropWhile (\<lambda>c. c \<noteq> CHR ''-'') (rev u @ CHR ''-'' # rev c) = CHR ''-'' # rev c"
    by (subst dropWhile_append2) (use p in auto)
  show ?thesis unfolding split_last_dash_def r Let_def t d by simp
qed

lemma split_last_dash_Some:
  assumes "split_last_dash s = Some (c, u)"
  shows "s = c @ ''-'' @ u \<and> CHR ''-'' \<notin> set u"
proof -
  let ?P = "\<lambda>c. c \<noteq> CHR ''-''"
  obtain dash before where d: "dropWhile ?P (rev s) = dash # before"
    and c: "c = rev before" and u: "u = rev (takeWhile ?P (rev s))"
    using assms by (auto simp: split_last_dash_def Let_def split: list.splits)
  have "\<not> ?P (hd (dropWhile ?P (rev s)))" by (rule hd_dropWhile) (simp add: d)
  then have dash: "dash = CHR ''-''" by (simp add: d)
  have "rev s = takeWhile ?P (rev s) @ dropWhile ?P (rev s)" by simp
  then have "rev s = rev u @ CHR ''-'' # rev c" using d c u dash by simp
  then have "rev (rev s) = rev (rev u @ CHR ''-'' # rev c)" by simp
  then have s: "s = c @ ''-'' @ u" by simp
  have "\<forall>x \<in> set (takeWhile ?P (rev s)). ?P x" by (auto dest: set_takeWhileD)
  then have "CHR ''-'' \<notin> set u" unfolding u by auto
  with s show ?thesis by simp
qed

lemma FindStringSubmatch_iff:
  "FindStringSubmatch s = [s, cell, uid] \<longleftrightarrow> alias_match s cell uid"
proof
  assume "FindStringSubmatch s = [s, cell, uid]"
  then show "alias_match s cell uid"
    by (auto simp: FindStringSubmatch_def alias_match_def split: option.splits if_splits
        dest: split_last_dash_Some)
next
  assume m: "alias_match s cell uid"
  then have "CHR ''-'' \<notin> set uid"
    by (auto simp: alias_match_def list_all_iff dest: uid_char_not_dash)
  then have "split_last_dash s = Some (cell, uid)"
    using m split_last_dash_append by (simp add: alias_match_def)
  then show "FindStringSubmatch s = [s, cell, uid]"
    using m by (simp add: FindStringSubmatch_def alias_match_def)
qed

lemma FindStringSubmatch_nil_iff:
  "FindStringSubmatch s = [] \<longleftrightarrow> (\<nexists>cell uid. alias_match s cell uid)"
proof
  assume n: "FindStringSubmatch s = []"
  show "\<nexists>cell uid. alias_match s cell uid"
  proof
    assume "\<exists>cell uid. alias_match s cell uid"
    then obtain cell uid where "alias_match s cell uid" by blast
    then have "FindStringSubmatch s = [s, cell, uid]" by (simp add: FindStringSubmatch_iff)
    with n show False by simp
  qed
next
  assume n: "\<nexists>cell uid. alias_match s cell uid"
  show "FindStringSubmatch s = []"
  proof (rule ccontr)
    assume "FindStringSubmatch s \<noteq> []"
    then obtain cell uid where "FindStringSubmatch s = [s, cell, uid]"
      by (auto simp: FindStringSubmatch_def split: option.splits if_splits)
    with n show False by (simp add: FindStringSubmatch_iff)
  qed
qed

lemma sublist_mid2: "sublist x (a @ b @ x @ c)"
  using sublist_appendI [of x "a @ b" c] by simp

subsection \<open>Alias equality, filled slices, splitting\<close>

lemma TabletAlias_eq_iff: "(a :: TabletAlias) = b \<longleftrightarrow> Cell a = Cell b \<and> Uid a = Uid b"
  by (cases a, cases b) simp

lemma TabletAliasEqual_iff: "TabletAliasEqual left right \<longleftrightarrow> left = right"
  by (auto simp: TabletAliasEqual_def TabletAlias_eq_iff split: option.splits)

lemma fill_fold:
  "k \<le> length xs \<Longrightarrow>
   fold (\<lambda>i res. res[i := f (xs ! i)]) [0 ..< k] (replicate (length xs) d)
   = map f (take k xs) @ replicate (length xs - k) d"
proof (induction k)
  case 0
  then show ?case by simp
next
  case (Suc k)
  then have k: "k < length xs" by simp
  have "fold (\<lambda>i res. res[i := f (xs ! i)]) [0 ..< Suc k] (replicate (length xs) d)
        = (map f (take k xs) @ replicate (length xs - k) d)[k := f (xs ! k)]"
    using Suc by simp
  also have "\<dots> = map f (take k xs) @ (replicate (length xs - k) d)[0 := f (xs ! k)]"
    using k by (simp add: list_update_append)
  also have "replicate (length xs - k) d = d # replicate (length xs - Suc k) d"
    using k by (simp add: Suc_diff_Suc replicate_Suc [symmetric] del: replicate_Suc)
  also have "map f (take k xs) @ (d # replicate (length xs - Suc k) d)[0 := f (xs ! k)]
        = map f (take (Suc k) xs) @ replicate (length xs - Suc k) d"
    using k by (simp add: take_Suc_conv_app_nth)
  finally show ?case .
qed

lemma fill_map:
  "fold (\<lambda>i res. res[i := f (xs ! i)]) [0 ..< length xs] (replicate (length xs) d) = map f xs"
  using fill_fold [of "length xs" xs f d] by simp

lemma ToStringSlice_map: "ToStringSlice tal = map TabletAliasString tal"
  unfolding ToStringSlice_def by (rule fill_map)

lemma MakeStringTypeList_map:
  "MakeStringTypeList pb uni types =
     sort (map (\<lambda>t. ToLower uni (TabletType_String pb t)) types)"
  unfolding MakeStringTypeList_def sort_Strings_def
  using fill_map [of "\<lambda>t. ToLower uni (TabletType_String pb t)" types "[]"] by simp

lemma Split_from_nonempty: "Split_from sep piece s \<noteq> []"
  by (induction s arbitrary: piece) simp_all

lemma ParseTabletTypes_loop_length:
  "ParseTabletTypes_loop pb uni strs acc = Inr ts \<Longrightarrow> length ts = length acc + length strs"
  by (induction strs arbitrary: acc) (auto split: prod.splits option.splits)

subsection \<open>The comparator and the sorting example\<close>

lemma Less_Some:
  assumes "0 \<le> i" "i < int (length tal)" "0 \<le> j" "j < int (length tal)"
    and "tal ! nat i = Some a" "tal ! nat j = Some b"
  shows "Less tal i j = Return (Cell a < Cell b \<or> (Cell a = Cell b \<and> Uid a < Uid b))"
  using assms by (auto simp: Less_def index_def)

lemma insertionSort_example:
  "insertionSort sort_example_input 0 (nat (Len sort_example_input)) = Return sort_example_output"
  by code_simp

lemma sort_example_output_ordered:
  "i < j \<and> j < length sort_example_output \<longrightarrow>
   Less sort_example_output (int j) (int i) = Return False"
proof
  assume "i < j \<and> j < length sort_example_output"
  then have "i < j \<and> j < 3" by (simp add: sort_example_output_def)
  then consider "i = 0 \<and> j = 1" | "i = 0 \<and> j = 2" | "i = 1 \<and> j = 2" by linarith
  then show "Less sort_example_output (int j) (int i) = Return False"
    by cases (simp_all add: Less_def index_def sort_example_output_def)
qed

lemma sort_example_unique:
  assumes m: "mset R = mset sort_example_input"
    and s: "\<forall>i j. i < j \<and> j < length R \<longrightarrow> Less R (int j) (int i) = Return False"
  shows "R = sort_example_output"
proof -
  have "length R = 3" using mset_eq_length [OF m] by (simp add: sort_example_input_def)
  then obtain p q r where R: "R = [p, q, r]"
    by (auto simp: length_Suc_conv numeral_3_eq_3)
  have "set R = set sort_example_input" using mset_eq_setD [OF m] .
  then have mem: "p \<in> set sort_example_input" "q \<in> set sort_example_input"
    "r \<in> set sort_example_input"
    by (auto simp: R)
  have l10: "Less R (int 1) (int 0) = Return False"
    using s [rule_format, of 0 1] by (simp add: R)
  have l21: "Less R (int 2) (int 1) = Return False"
    using s [rule_format, of 1 2] by (simp add: R)
  have "distinct sort_example_input" by (simp add: sort_example_input_def)
  then have d: "distinct R" using mset_eq_imp_distinct_iff [OF m] by simp
  show ?thesis
    using mem d l10 l21 unfolding R sort_example_input_def sort_example_output_def
    by (auto simp: Less_def index_def)
qed

section \<open>Verified properties\<close>

text \<open>
  Claim C1. For every alias whose cell is a non-empty string of characters from
  \<^verbatim>\<open>[-_.a-zA-Z0-9]\<close>, and for every uid of 32 bits, parsing the formatted alias
  succeeds and returns the alias itself.
\<close>

theorem ParseTabletAlias_roundtrip:
  assumes "Cell a \<noteq> []" and "list_all cell_char (Cell a)"
  shows "ParseTabletAlias (TabletAliasString (Some a)) = Inr a"
proof -
  let ?u = "fmt_010d (unat (Uid a))"
  let ?s = "Cell a @ ''-'' @ ?u"
  have "alias_match ?s (Cell a) ?u"
    using assms by (simp add: alias_match_def fmt_010d_digits fmt_010d_nonempty)
  then have f: "FindStringSubmatch ?s = [?s, Cell a, ?u]"
    by (simp add: FindStringSubmatch_iff)
  have "unat (Uid a) < 2 ^ 32" using unsigned_less [of "Uid a"] by simp
  then have "dec_val ?u \<le> maxVal" by (simp add: dec_val_fmt_010d maxVal_def)
  then have "ParseUint ?u = Inr (unat (Uid a))"
    by (simp add: ParseUint_digits fmt_010d_digits fmt_010d_nonempty dec_val_fmt_010d)
  then have p: "ParseUID ?u = Inr (Uid a)" by (simp add: ParseUID_def)
  have s: "TabletAliasString (Some a) = ?s" by (simp add: TabletAliasString_def)
  show ?thesis unfolding s ParseTabletAlias_def f Let_def by (simp add: p)
qed

theorem ParseTabletAlias_roundtrip_witness:
  "Cell \<lparr>Cell = ''zone1'', Uid = 1\<rparr> \<noteq> []
   \<and> list_all cell_char (Cell \<lparr>Cell = ''zone1'', Uid = 1\<rparr>)
   \<and> TabletAliasString (Some \<lparr>Cell = ''zone1'', Uid = 1\<rparr>) = ''zone1-0000000001''
   \<and> ParseTabletAlias ''zone1-0000000001'' = Inr \<lparr>Cell = ''zone1'', Uid = 1\<rparr>"
proof -
  have h1: "Cell \<lparr>Cell = ''zone1'', Uid = 1\<rparr> \<noteq> []" by simp
  have h2: "list_all cell_char (Cell \<lparr>Cell = ''zone1'', Uid = 1\<rparr>)"
    by (simp add: cell_char_def)
  have f: "TabletAliasString (Some \<lparr>Cell = ''zone1'', Uid = 1\<rparr>) = ''zone1-0000000001''"
    by code_simp
  show ?thesis
    using h1 h2 f ParseTabletAlias_roundtrip [OF h1 h2] by simp
qed

text \<open>
  Claim C2. On an input that does not match the anchored pattern, \<open>ParseTabletAlias\<close>
  fails with the error of \<^verbatim>\<open>fmt.Errorf\<close>, whose message holds the input and the
  pattern. On an input that matches and whose digit run denotes a number of more than 32
  bits, it fails with an error that wraps the range error of \<^verbatim>\<open>strconv.ParseUint\<close>
  (through the wrapper of \<open>ParseUID\<close>) and whose message holds the input.
\<close>

theorem ParseTabletAlias_errors:
  "((\<nexists>cell uid. alias_match s cell uid) \<longrightarrow>
      (\<exists>msg. ParseTabletAlias s = Inl (Errorf msg)
             \<and> sublist s msg \<and> sublist tabletAliasFormat msg))
   \<and> (alias_match s cell uid \<and> 2 ^ 32 \<le> dec_val uid \<longrightarrow>
      (\<exists>msg. ParseTabletAlias s =
                Inl (Wrap (Wrap (NumError ''ParseUint'' uid ErrRange) ''bad tablet uid'') msg)
             \<and> sublist s msg))"
proof (intro conjI impI)
  assume "\<nexists>cell uid. alias_match s cell uid"
  then have "FindStringSubmatch s = []" by (simp add: FindStringSubmatch_nil_iff)
  then have "ParseTabletAlias s =
      Inl (Errorf (''invalid tablet alias: '' @ [CHR 0x27] @ s @ [CHR 0x27]
                   @ '', expecting format: '' @ [CHR 0x27] @ tabletAliasFormat @ [CHR 0x27]))"
    by (simp add: ParseTabletAlias_def)
  moreover have "sublist s (''invalid tablet alias: '' @ [CHR 0x27] @ s @ [CHR 0x27]
                   @ '', expecting format: '' @ [CHR 0x27] @ tabletAliasFormat @ [CHR 0x27])"
    by (rule sublist_mid2)
  moreover have "sublist tabletAliasFormat (''invalid tablet alias: '' @ [CHR 0x27] @ s @ [CHR 0x27]
                   @ '', expecting format: '' @ [CHR 0x27] @ tabletAliasFormat @ [CHR 0x27])"
    using sublist_appendI [of tabletAliasFormat
        "''invalid tablet alias: '' @ [CHR 0x27] @ s @ [CHR 0x27] @ '', expecting format: '' @ [CHR 0x27]"
        "[CHR 0x27]"]
    by simp
  ultimately show "\<exists>msg. ParseTabletAlias s = Inl (Errorf msg)
             \<and> sublist s msg \<and> sublist tabletAliasFormat msg"
    by blast
next
  assume a: "alias_match s cell uid \<and> 2 ^ 32 \<le> dec_val uid"
  then have f: "FindStringSubmatch s = [s, cell, uid]" by (simp add: FindStringSubmatch_iff)
  have u: "uid \<noteq> []" "list_all uid_char uid" using a by (simp_all add: alias_match_def)
  have "\<not> dec_val uid \<le> maxVal" using a by (simp add: maxVal_def)
  then have "ParseUint uid = Inl (NumError ''ParseUint'' uid ErrRange)"
    using u by (simp add: ParseUint_digits)
  then have "ParseUID uid = Inl (Wrap (NumError ''ParseUint'' uid ErrRange) ''bad tablet uid'')"
    by (simp add: ParseUID_def)
  then have "ParseTabletAlias s =
      Inl (Wrap (Wrap (NumError ''ParseUint'' uid ErrRange) ''bad tablet uid'')
             (''invalid tablet uid in alias '' @ [CHR 0x27] @ s @ [CHR 0x27]))"
    unfolding ParseTabletAlias_def f Let_def by simp
  moreover have "sublist s (''invalid tablet uid in alias '' @ [CHR 0x27] @ s @ [CHR 0x27])"
    by (rule sublist_mid2)
  ultimately show "\<exists>msg. ParseTabletAlias s =
                Inl (Wrap (Wrap (NumError ''ParseUint'' uid ErrRange) ''bad tablet uid'') msg)
             \<and> sublist s msg"
    by blast
qed

theorem ParseTabletAlias_errors_witness:
  "(\<nexists>cell uid. alias_match ''bad alias'' cell uid)
   \<and> alias_match ''zone1-4294967296'' ''zone1'' ''4294967296''
   \<and> 2 ^ 32 \<le> dec_val ''4294967296''
   \<and> (\<exists>msg. ParseTabletAlias ''bad alias'' = Inl (Errorf msg)
          \<and> sublist ''bad alias'' msg \<and> sublist tabletAliasFormat msg)
   \<and> (\<exists>msg. ParseTabletAlias ''zone1-4294967296'' =
             Inl (Wrap (Wrap (NumError ''ParseUint'' ''4294967296'' ErrRange) ''bad tablet uid'')
                    msg)
          \<and> sublist ''zone1-4294967296'' msg)"
proof -
  have "FindStringSubmatch ''bad alias'' = []"
    by (simp add: FindStringSubmatch_def split_last_dash_def)
  then have h1: "\<nexists>cell uid. alias_match ''bad alias'' cell uid"
    by (simp add: FindStringSubmatch_nil_iff)
  have h2: "alias_match ''zone1-4294967296'' ''zone1'' ''4294967296''
      \<and> 2 ^ 32 \<le> dec_val ''4294967296''"
    by (simp add: alias_match_def cell_char_def uid_char_def)
  show ?thesis
    using h1 h2
      ParseTabletAlias_errors [of "''bad alias''" "[]" "[]", THEN conjunct1, rule_format, OF h1]
      ParseTabletAlias_errors [of "''zone1-4294967296''" "''zone1''" "''4294967296''",
        THEN conjunct2, rule_format, OF h2]
    by blast
qed

text \<open>
  Claim C3. \<open>Less\<close> orders two aliases of the list by cell, lexicographically, and by
  uid when the cells are equal. On the list \<open>[{b,1}, {a,5}, {a,2}]\<close> the insertion sort
  that \<^verbatim>\<open>sort.Sort\<close> runs returns \<open>[{a,2}, {a,5}, {b,1}]\<close>; that list is a
  rearrangement of the input in which no later element is less than an earlier one, and
  it is the only such rearrangement.
\<close>

theorem Less_order:
  "(0 \<le> i \<and> i < Len tal \<and> 0 \<le> j \<and> j < Len tal
      \<and> tal ! nat i = Some a \<and> tal ! nat j = Some b \<longrightarrow>
      Less tal i j = Return (Cell a < Cell b \<or> (Cell a = Cell b \<and> Uid a < Uid b)))
   \<and> insertionSort sort_example_input 0 (nat (Len sort_example_input)) = Return sort_example_output
   \<and> mset sort_example_output = mset sort_example_input
   \<and> (\<forall>i j. i < j \<and> j < length sort_example_output \<longrightarrow> Less sort_example_output (int j) (int i) = Return False)
   \<and> (\<forall>R. mset R = mset sort_example_input
           \<and> (\<forall>i j. i < j \<and> j < length R \<longrightarrow> Less R (int j) (int i) = Return False)
           \<longrightarrow> R = sort_example_output)"
proof (intro conjI)
  show "0 \<le> i \<and> i < Len tal \<and> 0 \<le> j \<and> j < Len tal
      \<and> tal ! nat i = Some a \<and> tal ! nat j = Some b \<longrightarrow>
      Less tal i j = Return (Cell a < Cell b \<or> (Cell a = Cell b \<and> Uid a < Uid b))"
    using Less_Some [of i tal j a b] by (simp add: Len_def)
  show "insertionSort sort_example_input 0 (nat (Len sort_example_input)) = Return sort_example_output"
    by (rule insertionSort_example)
  show "mset sort_example_output = mset sort_example_input"
    by (simp add: sort_example_input_def sort_example_output_def)
  show "\<forall>i j. i < j \<and> j < length sort_example_output \<longrightarrow> Less sort_example_output (int j) (int i) = Return False"
    using sort_example_output_ordered by blast
  show "\<forall>R. mset R = mset sort_example_input
           \<and> (\<forall>i j. i < j \<and> j < length R \<longrightarrow> Less R (int j) (int i) = Return False)
           \<longrightarrow> R = sort_example_output"
    using sort_example_unique by blast
qed

theorem Less_order_witness:
  "Less sort_example_input 0 1 = Return False
   \<and> Less sort_example_input 1 0 = Return True
   \<and> Less sort_example_input 2 1 = Return True
   \<and> Less sort_example_input 1 2 = Return False
   \<and> Less sort_example_output 1 0 = Return False
   \<and> Less sort_example_output 2 1 = Return False
   \<and> Less sort_example_output 2 0 = Return False
   \<and> mset sort_example_output = mset sort_example_input
   \<and> sort_example_output = sort_example_output"
proof -
  let ?b1 = "\<lparr>Cell = ''b'', Uid = 1\<rparr>" and ?a5 = "\<lparr>Cell = ''a'', Uid = 5\<rparr>"
    and ?a2 = "\<lparr>Cell = ''a'', Uid = 2\<rparr>"
  let ?L = sort_example_input and ?R = sort_example_output
  note all = Less_order [of 0 ?L 1 ?b1 ?a5]
  have h01: "(0::int) \<le> 0 \<and> 0 < Len ?L \<and> (0::int) \<le> 1 \<and> 1 < Len ?L
      \<and> ?L ! nat 0 = Some ?b1 \<and> ?L ! nat 1 = Some ?a5"
    by (simp add: sort_example_input_def Len_def)
  have h10: "(0::int) \<le> 1 \<and> 1 < Len ?L \<and> (0::int) \<le> 0 \<and> 0 < Len ?L
      \<and> ?L ! nat 1 = Some ?a5 \<and> ?L ! nat 0 = Some ?b1"
    by (simp add: sort_example_input_def Len_def)
  have h21: "(0::int) \<le> 2 \<and> 2 < Len ?L \<and> (0::int) \<le> 1 \<and> 1 < Len ?L
      \<and> ?L ! nat 2 = Some ?a2 \<and> ?L ! nat 1 = Some ?a5"
    by (simp add: sort_example_input_def Len_def)
  have h12: "(0::int) \<le> 1 \<and> 1 < Len ?L \<and> (0::int) \<le> 2 \<and> 2 < Len ?L
      \<and> ?L ! nat 1 = Some ?a5 \<and> ?L ! nat 2 = Some ?a2"
    by (simp add: sort_example_input_def Len_def)
  have o: "(0::nat) < 1 \<and> 1 < length ?R" and o': "(1::nat) < 2 \<and> 2 < length ?R"
    and o'': "(0::nat) < 2 \<and> 2 < length ?R"
    by (simp_all add: sort_example_output_def)
  have c01: "Less ?L 0 1 = Return False"
    using Less_order [of 0 ?L 1 ?b1 ?a5, THEN conjunct1, rule_format, OF h01] by simp
  have c10: "Less ?L 1 0 = Return True"
    using Less_order [of 1 ?L 0 ?a5 ?b1, THEN conjunct1, rule_format, OF h10] by simp
  have c21: "Less ?L 2 1 = Return True"
    using Less_order [of 2 ?L 1 ?a2 ?a5, THEN conjunct1, rule_format, OF h21] by simp
  have c12: "Less ?L 1 2 = Return False"
    using Less_order [of 1 ?L 2 ?a5 ?a2, THEN conjunct1, rule_format, OF h12] by simp
  have perm: "mset ?R = mset ?L"
    using all [THEN conjunct2, THEN conjunct2, THEN conjunct1] .
  have ord: "\<forall>i j. i < j \<and> j < length ?R \<longrightarrow> Less ?R (int j) (int i) = Return False"
    using all [THEN conjunct2, THEN conjunct2, THEN conjunct2, THEN conjunct1] .
  have o10: "Less ?R 1 0 = Return False"
    using ord [rule_format, OF o] by simp
  have o21: "Less ?R 2 1 = Return False"
    using ord [rule_format, OF o'] by simp
  have o20: "Less ?R 2 0 = Return False"
    using ord [rule_format, OF o''] by simp
  have u: "mset ?R = mset ?L
      \<and> (\<forall>i j. i < j \<and> j < length ?R \<longrightarrow> Less ?R (int j) (int i) = Return False)"
    using perm ord by simp
  have same: "?R = ?R"
    using all [THEN conjunct2, THEN conjunct2, THEN conjunct2, THEN conjunct2, rule_format, OF u] .
  show ?thesis using c01 c10 c21 c12 o10 o21 o20 perm same by simp
qed

text \<open>
  Claim C4. \<open>ToStringSlice\<close> returns a list as long as its input whose element at
  every index is \<open>TabletAliasString\<close> of the input's element at that index. A nil alias
  is formatted as \<^verbatim>\<open><nil>\<close>; an alias is formatted as its cell, a dash and ten
  decimal digits that denote its uid.
\<close>

theorem ToStringSlice_elements:
  "length (ToStringSlice tal) = length tal
   \<and> (\<forall>i < length tal. ToStringSlice tal ! i = TabletAliasString (tal ! i))
   \<and> TabletAliasString None = ''<nil>''
   \<and> (\<exists>u. TabletAliasString (Some a) = Cell a @ ''-'' @ u
          \<and> length u = 10 \<and> list_all uid_char u \<and> dec_val u = unat (Uid a))"
proof -
  have "unat (Uid a) < 2 ^ 32" using unsigned_less [of "Uid a"] by simp
  then have "unat (Uid a) < 10 ^ 10" by simp
  then have "length (fmt_010d (unat (Uid a))) = 10" by (rule length_fmt_010d)
  then have "\<exists>u. TabletAliasString (Some a) = Cell a @ ''-'' @ u
          \<and> length u = 10 \<and> list_all uid_char u \<and> dec_val u = unat (Uid a)"
    by (simp add: TabletAliasString_def fmt_010d_digits dec_val_fmt_010d)
  then show ?thesis by (simp add: ToStringSlice_map TabletAliasString_def)
qed

theorem ToStringSlice_elements_witness:
  "length (ToStringSlice [None, Some \<lparr>Cell = ''zone1'', Uid = 1\<rparr>]) = 2
   \<and> ToStringSlice [None, Some \<lparr>Cell = ''zone1'', Uid = 1\<rparr>] ! 0 = ''<nil>''
   \<and> ToStringSlice [None, Some \<lparr>Cell = ''zone1'', Uid = 1\<rparr>] ! 1 = ''zone1-0000000001''"
proof -
  let ?a = "\<lparr>Cell = ''zone1'', Uid = 1\<rparr>"
  let ?tal = "[None, Some ?a]"
  have f: "TabletAliasString (Some ?a) = ''zone1-0000000001''" by code_simp
  have i0: "(0::nat) < length ?tal" and i1: "(1::nat) < length ?tal" by simp_all
  have "length (ToStringSlice ?tal) = 2"
    using ToStringSlice_elements [of ?tal ?a, THEN conjunct1] by simp
  moreover have "ToStringSlice ?tal ! 0 = ''<nil>''"
    using ToStringSlice_elements [of ?tal ?a, THEN conjunct2, THEN conjunct1, rule_format, OF i0]
      ToStringSlice_elements [of ?tal ?a, THEN conjunct2, THEN conjunct2, THEN conjunct1]
    by simp
  moreover have "ToStringSlice ?tal ! 1 = ''zone1-0000000001''"
    using ToStringSlice_elements [of ?tal ?a, THEN conjunct2, THEN conjunct1, rule_format, OF i1] f
    by simp
  ultimately show ?thesis by simp
qed

text \<open>
  Claim C5. \<open>ParseTabletType\<close> looks the upper-cased input up in
  \<^verbatim>\<open>TabletType_value\<close>. A known name gives its value and no error; any other input
  gives \<^verbatim>\<open>TabletType_UNKNOWN\<close> and an error whose message holds the input.
\<close>

theorem ParseTabletType_result:
  "(\<forall>v. TabletType_value pb (ToUpper uni param) = Some v \<longrightarrow>
        ParseTabletType pb uni param = (v, None))
   \<and> (TabletType_value pb (ToUpper uni param) = None \<longrightarrow>
        (\<exists>msg. ParseTabletType pb uni param = (TabletType_UNKNOWN pb, Some (Errorf msg))
               \<and> sublist param msg))"
proof (intro conjI impI allI)
  fix v assume "TabletType_value pb (ToUpper uni param) = Some v"
  then show "ParseTabletType pb uni param = (v, None)" by (simp add: ParseTabletType_def)
next
  assume "TabletType_value pb (ToUpper uni param) = None"
  then have "ParseTabletType pb uni param
      = (TabletType_UNKNOWN pb, Some (Errorf (''unknown TabletType '' @ param)))"
    by (simp add: ParseTabletType_def)
  moreover have "sublist param (''unknown TabletType '' @ param)"
    using sublist_appendI [of param "''unknown TabletType ''" "[]"] by simp
  ultimately show "\<exists>msg. ParseTabletType pb uni param = (TabletType_UNKNOWN pb, Some (Errorf msg))
               \<and> sublist param msg"
    by blast
qed

theorem ParseTabletType_result_witness:
  "TabletType_value topodata (ToUpper (\<lambda>s. s) ''replica'') = Some (TabletType_REPLICA topodata)
   \<and> ParseTabletType topodata (\<lambda>s. s) ''replica'' = (TabletType_REPLICA topodata, None)
   \<and> TabletType_value topodata (ToUpper (\<lambda>s. s) ''bogus'') = None
   \<and> (\<exists>msg. ParseTabletType topodata (\<lambda>s. s) ''bogus''
               = (TabletType_UNKNOWN topodata, Some (Errorf msg))
          \<and> sublist ''bogus'' msg)"
proof -
  have h1: "TabletType_value topodata (ToUpper (\<lambda>s. s) ''replica'')
      = Some (TabletType_REPLICA topodata)"
    by code_simp
  have h2: "TabletType_value topodata (ToUpper (\<lambda>s. s) ''bogus'') = None"
    by code_simp
  show ?thesis
    using h1 h2
      ParseTabletType_result [of topodata "\<lambda>s. s" "''replica''", THEN conjunct1, rule_format, OF h1]
      ParseTabletType_result [of topodata "\<lambda>s. s" "''bogus''", THEN conjunct2, rule_format, OF h2]
    by blast
qed

text \<open>
  Claim C6. For two tablet types with the same name (as \<^verbatim>\<open>BATCH\<close> and
  \<^verbatim>\<open>RDONLY\<close>), \<open>MakeUniqueStringTypeList\<close> of the two returns one string and
  \<open>MakeStringTypeList\<close> returns the lower-case name twice. The result of either
  function, on any list, is sorted, and \<open>MakeStringTypeList\<close> keeps the length.
\<close>

theorem MakeStringTypeList_duplicates:
  "(TabletType_String pb a = TabletType_String pb b \<longrightarrow>
      MakeUniqueStringTypeList pb uni [a, b] = [ToLower uni (TabletType_String pb a)]
      \<and> MakeStringTypeList pb uni [a, b] =
          [ToLower uni (TabletType_String pb a), ToLower uni (TabletType_String pb a)])
   \<and> sorted (MakeStringTypeList pb uni types)
   \<and> sorted (MakeUniqueStringTypeList pb uni types)
   \<and> length (MakeStringTypeList pb uni types) = length types"
proof (intro conjI impI)
  assume e: "TabletType_String pb a = TabletType_String pb b"
  show "MakeUniqueStringTypeList pb uni [a, b] = [ToLower uni (TabletType_String pb a)]"
    using e by (simp add: MakeUniqueStringTypeList_def sort_Strings_def)
  show "MakeStringTypeList pb uni [a, b] =
          [ToLower uni (TabletType_String pb a), ToLower uni (TabletType_String pb a)]"
    using e by (simp add: MakeStringTypeList_map)
next
  show "sorted (MakeStringTypeList pb uni types)"
    by (simp add: MakeStringTypeList_map)
  show "sorted (MakeUniqueStringTypeList pb uni types)"
    by (simp add: MakeUniqueStringTypeList_def sort_Strings_def)
  show "length (MakeStringTypeList pb uni types) = length types"
    by (simp add: MakeStringTypeList_map)
qed

theorem MakeStringTypeList_duplicates_witness:
  "TabletType_String topodata (TabletType_BATCH topodata) =
     TabletType_String topodata (TabletType_RDONLY topodata)
   \<and> MakeUniqueStringTypeList topodata (\<lambda>s. s)
        [TabletType_BATCH topodata, TabletType_RDONLY topodata] = [''rdonly'']
   \<and> MakeStringTypeList topodata (\<lambda>s. s)
        [TabletType_BATCH topodata, TabletType_RDONLY topodata] = [''rdonly'', ''rdonly'']"
proof -
  have h: "TabletType_String topodata (TabletType_BATCH topodata) =
     TabletType_String topodata (TabletType_RDONLY topodata)"
    by (simp add: topodata_def)
  have v: "ToLower (\<lambda>s. s) (TabletType_String topodata (TabletType_BATCH topodata)) = ''rdonly''"
    by code_simp
  show ?thesis
    using h v MakeStringTypeList_duplicates
      [of topodata "TabletType_BATCH topodata" "TabletType_RDONLY topodata" "\<lambda>s. s" "[]"]
    by simp
qed

text \<open>
  Claim C7. \<open>IsServingType\<close> is true exactly for the values of \<^verbatim>\<open>PRIMARY\<close>,
  \<^verbatim>\<open>REPLICA\<close>, \<^verbatim>\<open>BATCH\<close> and \<^verbatim>\<open>EXPERIMENTAL\<close>, and false for every other
  value. \<^verbatim>\<open>DRAINED\<close>, \<^verbatim>\<open>SPARE\<close>, \<^verbatim>\<open>BACKUP\<close>, \<^verbatim>\<open>RESTORE\<close> and \<^verbatim>\<open>UNKNOWN\<close>
  are such other values when none of these constants is one of the four.
\<close>

theorem IsServingType_exactly:
  "(IsServingType pb t \<longleftrightarrow>
      t \<in> {TabletType_PRIMARY pb, TabletType_REPLICA pb, TabletType_BATCH pb,
           TabletType_EXPERIMENTAL pb})
   \<and> ({TabletType_DRAINED pb, TabletType_SPARE pb, TabletType_BACKUP pb,
        TabletType_RESTORE pb, TabletType_UNKNOWN pb}
       \<inter> {TabletType_PRIMARY pb, TabletType_REPLICA pb, TabletType_BATCH pb,
          TabletType_EXPERIMENTAL pb} = {} \<longrightarrow>
        \<not> IsServingType pb (TabletType_DRAINED pb) \<and> \<not> IsServingType pb (TabletType_SPARE pb)
        \<and> \<not> IsServingType pb (TabletType_BACKUP pb)
        \<and> \<not> IsServingType pb (TabletType_RESTORE pb)
        \<and> \<not> IsServingType pb (TabletType_UNKNOWN pb))"
  by (auto simp: IsServingType_def)

theorem IsServingType_exactly_witness:
  "{TabletType_DRAINED topodata, TabletType_SPARE topodata, TabletType_BACKUP topodata,
    TabletType_RESTORE topodata, TabletType_UNKNOWN topodata}
     \<inter> {TabletType_PRIMARY topodata, TabletType_REPLICA topodata, TabletType_BATCH topodata,
        TabletType_EXPERIMENTAL topodata} = {}
   \<and> IsServingType topodata (TabletType_PRIMARY topodata)
   \<and> IsServingType topodata (TabletType_RDONLY topodata)
   \<and> \<not> IsServingType topodata (TabletType_DRAINED topodata)
   \<and> \<not> IsServingType topodata (TabletType_SPARE topodata)
   \<and> \<not> IsServingType topodata (TabletType_BACKUP topodata)
   \<and> \<not> IsServingType topodata (TabletType_RESTORE topodata)
   \<and> \<not> IsServingType topodata (TabletType_UNKNOWN topodata)
   \<and> \<not> IsServingType topodata 42"
proof -
  have d: "{TabletType_DRAINED topodata, TabletType_SPARE topodata, TabletType_BACKUP topodata,
    TabletType_RESTORE topodata, TabletType_UNKNOWN topodata}
     \<inter> {TabletType_PRIMARY topodata, TabletType_REPLICA topodata, TabletType_BATCH topodata,
        TabletType_EXPERIMENTAL topodata} = {}"
    by (simp add: topodata_def)
  have "IsServingType topodata (TabletType_PRIMARY topodata)"
    using IsServingType_exactly [of topodata "TabletType_PRIMARY topodata", THEN conjunct1]
    by simp
  moreover have "IsServingType topodata (TabletType_RDONLY topodata)"
    using IsServingType_exactly [of topodata "TabletType_RDONLY topodata", THEN conjunct1]
    by (simp add: topodata_def)
  moreover have "\<not> IsServingType topodata 42"
    using IsServingType_exactly [of topodata 42, THEN conjunct1] by (simp add: topodata_def)
  ultimately show ?thesis
    using d IsServingType_exactly [of topodata 0, THEN conjunct2, rule_format, OF d] by simp
qed

text \<open>
  Claim C8. \<open>TabletDbName\<close> returns a non-empty \<^verbatim>\<open>DbNameOverride\<close> as it is,
  whatever the keyspace; with an empty override it returns the empty string for an empty
  keyspace and \<^verbatim>\<open>vt_\<close> followed by the keyspace otherwise.
\<close>

theorem TabletDbName_cases:
  "(DbNameOverride t \<noteq> [] \<longrightarrow> TabletDbName (Some t) = Return (DbNameOverride t))
   \<and> (DbNameOverride t = [] \<and> Keyspace t = [] \<longrightarrow> TabletDbName (Some t) = Return [])
   \<and> (DbNameOverride t = [] \<and> Keyspace t \<noteq> [] \<longrightarrow>
        TabletDbName (Some t) = Return (''vt_'' @ Keyspace t))"
  by (simp add: TabletDbName_def VtDbPrefix_def)

theorem TabletDbName_cases_witness:
  "TabletDbName (Some \<lparr>Alias = None, Keyspace = ''ks1'', Shard = ''0'', DbNameOverride = [],
       MysqlHostname = ''h'', MysqlPort = 3306\<rparr>) = Return ''vt_ks1''
   \<and> TabletDbName (Some \<lparr>Alias = None, Keyspace = [], Shard = ''0'', DbNameOverride = [],
       MysqlHostname = ''h'', MysqlPort = 3306\<rparr>) = Return []
   \<and> TabletDbName (Some \<lparr>Alias = None, Keyspace = ''ks1'', Shard = ''0'',
       DbNameOverride = ''mydb'', MysqlHostname = ''h'', MysqlPort = 3306\<rparr>) = Return ''mydb''"
proof -
  let ?t1 = "\<lparr>Alias = None, Keyspace = ''ks1'', Shard = ''0'', DbNameOverride = [],
       MysqlHostname = ''h'', MysqlPort = 3306\<rparr>"
  let ?t2 = "\<lparr>Alias = None, Keyspace = [], Shard = ''0'', DbNameOverride = [],
       MysqlHostname = ''h'', MysqlPort = 3306\<rparr>"
  let ?t3 = "\<lparr>Alias = None, Keyspace = ''ks1'', Shard = ''0'',
       DbNameOverride = ''mydb'', MysqlHostname = ''h'', MysqlPort = 3306\<rparr>"
  have h1: "DbNameOverride ?t1 = [] \<and> Keyspace ?t1 \<noteq> []" by simp
  have h2: "DbNameOverride ?t2 = [] \<and> Keyspace ?t2 = []" by simp
  have h3: "DbNameOverride ?t3 \<noteq> []" by simp
  show ?thesis
    using TabletDbName_cases [of ?t1, THEN conjunct2, THEN conjunct2, rule_format, OF h1]
      TabletDbName_cases [of ?t2, THEN conjunct2, THEN conjunct1, rule_format, OF h2]
      TabletDbName_cases [of ?t3, THEN conjunct1, rule_format, OF h3]
    by simp
qed

text \<open>
  Claim C9. For a tablet and a list of tablets, \<open>IsTabletInList\<close> returns true if and
  only if some tablet of the list has an alias equal to the alias of the given tablet;
  no other field takes part.
\<close>

theorem IsTabletInList_alias:
  "IsTabletInList (Some t) (map Some ts) = Return (\<exists>t' \<in> set ts. Alias t' = Alias t)"
  by (induction ts) (auto simp: TabletAliasEqual_iff)

theorem IsTabletInList_alias_witness:
  "IsTabletInList
     (Some \<lparr>Alias = Some \<lparr>Cell = ''zone1'', Uid = 1\<rparr>, Keyspace = ''ks1'', Shard = ''0'',
        DbNameOverride = [], MysqlHostname = ''h1'', MysqlPort = 3306\<rparr>)
     (map Some
        [\<lparr>Alias = Some \<lparr>Cell = ''zone1'', Uid = 2\<rparr>, Keyspace = ''ks1'', Shard = ''0'',
           DbNameOverride = [], MysqlHostname = ''h1'', MysqlPort = 3306\<rparr>,
         \<lparr>Alias = Some \<lparr>Cell = ''zone1'', Uid = 1\<rparr>, Keyspace = ''ks2'', Shard = ''-80'',
           DbNameOverride = ''db'', MysqlHostname = ''h2'', MysqlPort = 3307\<rparr>])
   = Return True
   \<and> IsTabletInList
     (Some \<lparr>Alias = Some \<lparr>Cell = ''zone1'', Uid = 1\<rparr>, Keyspace = ''ks1'', Shard = ''0'',
        DbNameOverride = [], MysqlHostname = ''h1'', MysqlPort = 3306\<rparr>)
     (map Some
        [\<lparr>Alias = Some \<lparr>Cell = ''zone1'', Uid = 2\<rparr>, Keyspace = ''ks1'', Shard = ''0'',
           DbNameOverride = [], MysqlHostname = ''h1'', MysqlPort = 3306\<rparr>])
   = Return False"
  using IsTabletInList_alias
      [of "\<lparr>Alias = Some \<lparr>Cell = ''zone1'', Uid = 1\<rparr>, Keyspace = ''ks1'', Shard = ''0'',
        DbNameOverride = [], MysqlHostname = ''h1'', MysqlPort = 3306\<rparr>"
       "[\<lparr>Alias = Some \<lparr>Cell = ''zone1'', Uid = 2\<rparr>, Keyspace = ''ks1'', Shard = ''0'',
           DbNameOverride = [], MysqlHostname = ''h1'', MysqlPort = 3306\<rparr>,
         \<lparr>Alias = Some \<lparr>Cell = ''zone1'', Uid = 1\<rparr>, Keyspace = ''ks2'', Shard = ''-80'',
           DbNameOverride = ''db'', MysqlHostname = ''h2'', MysqlPort = 3307\<rparr>]"]
    IsTabletInList_alias
      [of "\<lparr>Alias = Some \<lparr>Cell = ''zone1'', Uid = 1\<rparr>, Keyspace = ''ks1'', Shard = ''0'',
        DbNameOverride = [], MysqlHostname = ''h1'', MysqlPort = 3306\<rparr>"
       "[\<lparr>Alias = Some \<lparr>Cell = ''zone1'', Uid = 2\<rparr>, Keyspace = ''ks1'', Shard = ''0'',
           DbNameOverride = [], MysqlHostname = ''h1'', MysqlPort = 3306\<rparr>]"]
  by simp

text \<open>
  Claim C10. Splitting the empty string gives one empty piece; when the empty string is
  not a role name, \<open>ParseTabletTypes\<close> of the empty string fails with the error of
  \<open>ParseTabletType\<close>. Whenever \<open>ParseTabletTypes\<close> succeeds, its result is not
  empty.
\<close>

theorem ParseTabletTypes_empty:
  "Split [] (CHR '','') = [[]]
   \<and> (TabletType_value pb [] = None \<longrightarrow>
        ParseTabletTypes pb uni [] = Inl (Errorf ''unknown TabletType ''))
   \<and> (\<forall>ts. ParseTabletTypes pb uni s = Inr ts \<longrightarrow> ts \<noteq> [])"
proof (intro conjI impI allI)
  show "Split [] (CHR '','') = [[]]" by (simp add: Split_def)
next
  assume "TabletType_value pb [] = None"
  then show "ParseTabletTypes pb uni [] = Inl (Errorf ''unknown TabletType '')"
    by (simp add: ParseTabletTypes_def Split_def ParseTabletType_def ToUpper_def isASCII_def)
next
  fix ts assume "ParseTabletTypes pb uni s = Inr ts"
  then have "length ts = length (Split s (CHR '',''))"
    using ParseTabletTypes_loop_length [of pb uni "Split s (CHR '','')" "[]" ts]
    by (simp add: ParseTabletTypes_def)
  then show "ts \<noteq> []" using Split_from_nonempty [of "CHR '',''" "[]" s]
    by (auto simp: Split_def)
qed

theorem ParseTabletTypes_empty_witness:
  "TabletType_value topodata [] = None
   \<and> ParseTabletTypes topodata (\<lambda>s. s) [] = Inl (Errorf ''unknown TabletType '')
   \<and> ParseTabletTypes topodata (\<lambda>s. s) ''replica,rdonly'' = Inr [2, 3]
   \<and> [2, 3 :: TabletType] \<noteq> []"
proof -
  have h1: "TabletType_value topodata [] = None"
    by (simp add: topodata_def topodata_values_def)
  have h2: "ParseTabletTypes topodata (\<lambda>s. s) ''replica,rdonly'' = Inr [2, 3]"
    by code_simp
  show ?thesis
    using h1 h2
      ParseTabletTypes_empty [of topodata "\<lambda>s. s" "[]", THEN conjunct2, THEN conjunct1,
        rule_format, OF h1]
      ParseTabletTypes_empty [of topodata "\<lambda>s. s" "''replica,rdonly''", THEN conjunct2,
        THEN conjunct2, rule_format, OF h2]
    by simp
qed

end
